theory Spec2Isabelle
  imports Main "HOL-Library.Multiset" "HOL-Library.Sublist"
begin

section \<open>The context bar of the whiteboard: data model\<close>

text \<open>
  Source: \<^verbatim>\<open>tldraw/apps/tldraw-logseq/src/components/ContextBar/contextBarActionFactory.tsx\<close>.

  \<^verbatim>\<open>contextBarActionTypes\<close> is a closed enumeration of string literals; its declaration
  order is the display order.
\<close>

datatype ContextBarActionType =
    Edit | AutoResizing | Swatch | NoFill | StrokeType | ScaleLevel | TextStyle
  | YoutubeLink | LogseqPortalViewMode | ArrowMode | OpenPage

definition contextBarActionTypes :: "ContextBarActionType list" where
  "contextBarActionTypes =
     [Edit, AutoResizing, Swatch, NoFill, StrokeType, ScaleLevel, TextStyle,
      YoutubeLink, LogseqPortalViewMode, ArrowMode, OpenPage]"

definition singleShapeActions :: "ContextBarActionType list" where
  "singleShapeActions = [Edit, YoutubeLink, OpenPage]"

text \<open>
  The widgets are React components; the resolver returns them, not the identifiers.
  One constructor per component constant of the source.
\<close>

datatype Component =
    EditAction | AutoResizingAction | LogseqPortalViewModeAction | ScaleLevelAction
  | OpenPageAction | YoutubeLinkAction | NoFillAction | SwatchAction | StrokeTypeAction
  | ArrowModeAction | TextStyleAction

text \<open>
  \<^verbatim>\<open>contextBarActionMapping\<close> is a \<^verbatim>\<open>Map\<close> filled by eleven \<^verbatim>\<open>set\<close> calls
  (lines 447 to 457), in this order. \<^verbatim>\<open>Map.get\<close> of a missing key is \<^verbatim>\<open>undefined\<close>,
  here \<open>None\<close>.
\<close>

definition contextBarActionMapping_sets :: "(ContextBarActionType \<times> Component) list" where
  "contextBarActionMapping_sets =
     [(Edit, EditAction),
      (AutoResizing, AutoResizingAction),
      (LogseqPortalViewMode, LogseqPortalViewModeAction),
      (ScaleLevel, ScaleLevelAction),
      (OpenPage, OpenPageAction),
      (YoutubeLink, YoutubeLinkAction),
      (NoFill, NoFillAction),
      (Swatch, SwatchAction),
      (StrokeType, StrokeTypeAction),
      (ArrowMode, ArrowModeAction),
      (TextStyle, TextStyleAction)]"

definition contextBarActionMapping :: "ContextBarActionType \<rightharpoonup> Component" where
  "contextBarActionMapping =
     fold (\<lambda>(action, component) m. m(action \<mapsto> component)) contextBarActionMapping_sets Map.empty"

text \<open>
  A shape type is the string tag \<^verbatim>\<open>shape.props.type\<close>. \<^verbatim>\<open>shapeMapping\<close> is a
  \<^verbatim>\<open>Partial<Record<ShapeType, ...>>\<close>: an object literal with ten keys, so a lookup of any
  other shape type is \<^verbatim>\<open>undefined\<close>. The entries keep the order of the literal.
\<close>

type_synonym ShapeType = string

definition shapeMapping_entries :: "(ShapeType \<times> ContextBarActionType list) list" where
  "shapeMapping_entries =
     [(''logseq-portal'', [Edit, LogseqPortalViewMode, ScaleLevel, OpenPage, AutoResizing]),
      (''youtube'', [YoutubeLink]),
      (''box'', [Swatch, NoFill, StrokeType]),
      (''ellipse'', [Swatch, NoFill, StrokeType]),
      (''polygon'', [Swatch, NoFill, StrokeType]),
      (''line'', [Edit, Swatch, ArrowMode]),
      (''pencil'', [Swatch]),
      (''highlighter'', [Swatch]),
      (''text'', [Edit, Swatch, ScaleLevel, AutoResizing, TextStyle]),
      (''html'', [ScaleLevel, AutoResizing])]"

definition shapeMapping :: "ShapeType \<rightharpoonup> ContextBarActionType list" where
  "shapeMapping = map_of shapeMapping_entries"

text \<open>
  The property bag of a shape, with the properties the widgets of this file read. A
  boolean field holds the truthiness of the property as JavaScript reads it (a missing
  property is falsy). \<^verbatim>\<open>decorations\<close> is optional and read with \<^verbatim>\<open>?.\<close>.
\<close>

datatype Decoration = Arrow

record Decorations =
  start :: "Decoration option"
  finish :: "Decoration option"

record Props =
  type :: ShapeType
  noFill :: bool
  fill :: string
  stroke :: string
  strokeType :: string
  isAutoResizing :: bool
  fontWeight :: int
  italic :: bool
  decorations :: "Decorations option"
  url :: string
  pageId :: string
  blockType :: string

text \<open>
  A shape: its identifier, its property bag, and the two getters
  \<^verbatim>\<open>scaleLevel\<close> (possibly \<^verbatim>\<open>undefined\<close>) and \<^verbatim>\<open>collapsed\<close> that the widgets read on
  the shape itself.
\<close>

record Shape =
  id :: string
  props :: Props
  scaleLevel :: "string option"
  collapsed :: bool

section \<open>The action resolver\<close>

text \<open>
  \<^verbatim>\<open>isNonNullable\<close> comes from \<^verbatim>\<open>@tldraw/core\<close>: it is true of every value but
  \<^verbatim>\<open>null\<close> and \<^verbatim>\<open>undefined\<close>. The lists of the table hold action identifiers only, so
  on them it is constantly true.
\<close>

definition isNonNullable :: "ContextBarActionType \<Rightarrow> bool" where
  "isNonNullable a = True"

definition getContextBarActionTypes :: "ShapeType \<Rightarrow> ContextBarActionType list" where
  "getContextBarActionTypes t =
     filter isNonNullable (case shapeMapping t of None \<Rightarrow> [] | Some l \<Rightarrow> l)"

text \<open>
  A JavaScript \<^verbatim>\<open>Set\<close> keeps its elements in insertion order, each once: a list
  without duplicates. \<^verbatim>\<open>new Set(array)\<close> adds the elements left to right, so the first
  occurrence of a value fixes its place.
\<close>

type_synonym 'a js_set = "'a list"

definition set_add :: "'a \<Rightarrow> 'a js_set \<Rightarrow> 'a js_set" where
  "set_add x s = (if x \<in> set s then s else s @ [x])"

definition new_Set :: "'a list \<Rightarrow> 'a js_set" where
  "new_Set xs = fold set_add xs []"

definition set_has :: "'a js_set \<Rightarrow> 'a \<Rightarrow> bool" where
  "set_has s x = (x \<in> set s)"

definition set_delete :: "'a \<Rightarrow> 'a js_set \<Rightarrow> 'a js_set" where
  "set_delete x s = filter (\<lambda>y. y \<noteq> x) s"

text \<open>
  \<^verbatim>\<open>Array.prototype.includes\<close> and \<^verbatim>\<open>indexOf\<close> (\<open>-1\<close> when the value is absent).
\<close>

definition array_includes :: "'a list \<Rightarrow> 'a \<Rightarrow> bool" where
  "array_includes xs x = (x \<in> set xs)"

fun indexOf :: "'a list \<Rightarrow> 'a \<Rightarrow> int" where
  "indexOf [] x = -1"
| "indexOf (y # ys) x =
     (if y = x then 0 else (let i = indexOf ys x in if i < 0 then -1 else i + 1))"

text \<open>
  The body of the loop of lines 466 to 473: every action of the running set that the
  other shape's list does not include is deleted. Deleting the element being visited is
  safe in \<^verbatim>\<open>Set.prototype.forEach\<close>; the other elements are still visited, in order.
\<close>

definition intersect_step ::
  "ContextBarActionType list \<Rightarrow> ContextBarActionType js_set \<Rightarrow> ContextBarActionType js_set" where
  "intersect_step otherActionTypes actionTypes =
     fold (\<lambda>action s. if \<not> array_includes otherActionTypes action then set_delete action s else s)
       actionTypes actionTypes"

text \<open>
  The loop itself: \<^verbatim>\<open>for (let i = 1; i < types.length && actionTypes.size > 0; i++)\<close>.
  The index \<open>i\<close> is below the length whenever \<open>types ! i\<close> is read.
\<close>

function intersect_loop ::
  "nat \<Rightarrow> ShapeType list \<Rightarrow> ContextBarActionType js_set \<Rightarrow> ContextBarActionType js_set" where
  "intersect_loop i types actionTypes =
     (if i < length types \<and> length actionTypes > 0
      then intersect_loop (i + 1) types
             (intersect_step (getContextBarActionTypes (types ! i)) actionTypes)
      else actionTypes)"
  by pat_completeness auto
termination
  by (relation "measure (\<lambda>(i, types, actionTypes). length types - i)") auto

declare intersect_loop.simps [simp del]

text \<open>
  Lines 474 to 480: with more than one shape, each single-shape action that the set has
  is deleted.
\<close>

definition drop_singleShapeActions ::
  "ContextBarActionType js_set \<Rightarrow> ContextBarActionType js_set" where
  "drop_singleShapeActions actionTypes =
     fold (\<lambda>action s. if set_has s action then set_delete action s else s)
       singleShapeActions actionTypes"

text \<open>
  The action identifiers left in the set when the function reaches its \<^verbatim>\<open>return\<close>
  (lines 464 to 480). \<^verbatim>\<open>types[0]\<close> is read only when the selection is not empty.
\<close>

definition selectedActionTypes :: "Shape list \<Rightarrow> ContextBarActionType js_set" where
  "selectedActionTypes shapes =
     (let types = map (\<lambda>s. type (props s)) shapes;
          actionTypes = new_Set (case types of [] \<Rightarrow> [] | t # _ \<Rightarrow> getContextBarActionTypes t);
          actionTypes = intersect_loop 1 types actionTypes
      in if length shapes > 1 then drop_singleShapeActions actionTypes else actionTypes)"

text \<open>
  Lines 482 to 484. \<^verbatim>\<open>Array.prototype.sort\<close> is stable; the comparator is the
  difference of the positions in the enumeration, so the sort is a stable sort on that
  key. The last step maps each identifier to its component; the \<^verbatim>\<open>!\<close> of the source
  is erased at run time, so a missing entry would be \<^verbatim>\<open>undefined\<close> in the result
  (\<open>None\<close>).
\<close>

definition getContextBarActionsForTypes :: "Shape list \<Rightarrow> Component option list" where
  "getContextBarActionsForTypes shapes =
     map (\<lambda>action. contextBarActionMapping action)
       (sort_key (indexOf contextBarActionTypes) (selectedActionTypes shapes))"

section \<open>The action widgets\<close>

text \<open>
  Line 70: a shape is kept when the list of its type includes the action;
  \<^verbatim>\<open>shapeMapping[...]?.includes(type)\<close> is \<^verbatim>\<open>undefined\<close>, so falsy, for a type
  outside the table.
\<close>

definition filterShapeByAction :: "Shape list \<Rightarrow> ContextBarActionType \<Rightarrow> Shape list" where
  "filterShapeByAction shapes t =
     filter (\<lambda>shape. case shapeMapping (type (props shape)) of
                        None \<Rightarrow> False
                      | Some l \<Rightarrow> array_includes l t) shapes"

text \<open>
  Reading an array out of range gives \<^verbatim>\<open>undefined\<close> (\<open>None\<close>); reading a property of
  \<^verbatim>\<open>undefined\<close> throws a \<^verbatim>\<open>TypeError\<close>.
\<close>

datatype js_error = TypeError

definition array_at :: "'a list \<Rightarrow> nat \<Rightarrow> 'a option" where
  "array_at xs i = (if i < length xs then Some (xs ! i) else None)"

definition every :: "('a \<Rightarrow> bool) \<Rightarrow> 'a list \<Rightarrow> bool" where
  "every p xs = list_all p xs"

subsection \<open>What each widget displays\<close>

text \<open>
  Every function below takes \<^verbatim>\<open>app.selectedShapesArray\<close> and computes what the
  component computes while it renders.
\<close>

text \<open>Line 76: the shape the Edit button will act on; its click handler reads its properties.\<close>

definition EditAction_shape :: "Shape list \<Rightarrow> Shape option" where
  "EditAction_shape selection = array_at (filterShapeByAction selection Edit) 0"

text \<open>Lines 109 and 114.\<close>

definition AutoResizingAction_pressed :: "Shape list \<Rightarrow> bool" where
  "AutoResizingAction_pressed selection =
     (let shapes = filterShapeByAction selection AutoResizing
      in every (\<lambda>s. isAutoResizing (props s)) shapes)"

definition AutoResizingAction_toggle :: "Shape list \<Rightarrow> bool" where
  "AutoResizingAction_toggle selection =
     (let shapes = filterShapeByAction selection AutoResizing
      in every (\<lambda>s. type (props s) = ''logseq-portal'') shapes)"

text \<open>Lines 142 and 157.\<close>

definition LogseqPortalViewModeAction_value :: "Shape list \<Rightarrow> string" where
  "LogseqPortalViewModeAction_value selection =
     (let shapes = filterShapeByAction selection LogseqPortalViewMode;
          collapsed = every (\<lambda>s. collapsed s) shapes
      in if collapsed then ''1'' else ''0'')"

text \<open>Line 171.\<close>

definition ScaleLevelAction_scaleLevel :: "Shape list \<Rightarrow> js_error + string option" where
  "ScaleLevelAction_scaleLevel selection =
     (let shapes = filterShapeByAction selection ScaleLevel
      in if length (new_Set (map scaleLevel shapes)) > 1 then Inr (Some [])
         else (case array_at shapes 0 of
                 None \<Rightarrow> Inl TypeError
               | Some s \<Rightarrow> Inr (scaleLevel s)))"

text \<open>Lines 216 to 218: \<^verbatim>\<open>pageId\<close> and \<^verbatim>\<open>blockType\<close> of the first shape.\<close>

definition OpenPageAction_props :: "Shape list \<Rightarrow> js_error + string \<times> string" where
  "OpenPageAction_props selection =
     (let shapes = filterShapeByAction selection OpenPage
      in case array_at shapes 0 of
           None \<Rightarrow> Inl TypeError
         | Some shape \<Rightarrow> Inr (pageId (props shape), blockType (props shape)))"

text \<open>Lines 244 and 255.\<close>

definition YoutubeLinkAction_value :: "Shape list \<Rightarrow> js_error + string" where
  "YoutubeLinkAction_value selection =
     (case array_at (filterShapeByAction selection YoutubeLink) 0 of
        None \<Rightarrow> Inl TypeError
      | Some shape \<Rightarrow> Inr (url (props shape)))"

text \<open>Line 281.\<close>

definition NoFillAction_noFill :: "Shape list \<Rightarrow> bool" where
  "NoFillAction_noFill selection =
     (let shapes = filterShapeByAction selection NoFill
      in every (\<lambda>s. noFill (props s)) shapes)"

text \<open>Line 314.\<close>

definition SwatchAction_value :: "Shape list \<Rightarrow> js_error + string" where
  "SwatchAction_value selection =
     (let shapes = filterShapeByAction selection Swatch
      in case array_at shapes 0 of
           None \<Rightarrow> Inl TypeError
         | Some s0 \<Rightarrow> Inr (if noFill (props s0) then stroke (props s0) else fill (props s0)))"

text \<open>Lines 335 to 339.\<close>

definition StrokeTypeAction_value :: "Shape list \<Rightarrow> string" where
  "StrokeTypeAction_value selection =
     (let shapes = filterShapeByAction selection StrokeType
      in if every (\<lambda>s. strokeType (props s) = ''dashed'') shapes then ''dashed''
         else if every (\<lambda>s. strokeType (props s) = ''line'') shapes then ''line''
         else ''mixed'')"

text \<open>
  Lines 373 to 376: \<^verbatim>\<open>decorations?.start\<close> of a shape without decorations is
  \<^verbatim>\<open>undefined\<close>, which is not \<^verbatim>\<open>Decoration.Arrow\<close>.
\<close>

definition decoration_start :: "Shape \<Rightarrow> Decoration option" where
  "decoration_start s = (case decorations (props s) of None \<Rightarrow> None | Some d \<Rightarrow> start d)"

definition decoration_end :: "Shape \<Rightarrow> Decoration option" where
  "decoration_end s = (case decorations (props s) of None \<Rightarrow> None | Some d \<Rightarrow> finish d)"

definition ArrowModeAction_value :: "Shape list \<Rightarrow> string list" where
  "ArrowModeAction_value selection =
     (let shapes = filterShapeByAction selection ArrowMode;
          startValue = every (\<lambda>s. decoration_start s = Some Arrow) shapes;
          endValue = every (\<lambda>s. decoration_end s = Some Arrow) shapes
      in (if startValue then [''start''] else []) @ (if endValue then [''end''] else []))"

text \<open>Lines 406 and 407.\<close>

definition TextStyleAction_bold :: "Shape list \<Rightarrow> bool" where
  "TextStyleAction_bold selection =
     (let shapes = filterShapeByAction selection TextStyle
      in every (\<lambda>s. fontWeight (props s) > 500) shapes)"

definition TextStyleAction_italic :: "Shape list \<Rightarrow> bool" where
  "TextStyleAction_italic selection =
     (let shapes = filterShapeByAction selection TextStyle
      in every (\<lambda>s. italic (props s)) shapes)"

subsection \<open>What each change handler does\<close>

text \<open>
  The widgets own no state: a handler calls methods of the shapes and of the application,
  none of which is in this file. A run of a handler is therefore the sequence of these
  calls, in order. A call names its receiver by the shape as it stood in the selection;
  \<^verbatim>\<open>update\<close> takes the one-property object the source passes; \<^verbatim>\<open>persist\<close> takes its
  flag, false when the source passes none. The zoom passed to \<^verbatim>\<open>onResetBounds\<close> is only
  handed on, so its type is left open.

  A handler is a closure over the \<^verbatim>\<open>shapes\<close> its component computed when it rendered;
  those of NoFill and Swatch are memoised with an empty dependency list and keep the
  shapes of the first render. Each function below takes the selection of the render that
  made the handler. The click handlers of the Edit and OpenPage buttons pass no new value
  and are not change handlers.
\<close>

datatype Patch =
    P_isAutoResizing bool
  | P_noFill bool
  | P_fill string
  | P_strokeType string
  | P_decorations Decorations
  | P_fontWeight int
  | P_italic bool

datatype 'z Call =
    Update Shape Patch
  | OnResetBounds Shape "'z option"
  | SetCollapsed Shape bool
  | SetScaleLevel Shape string
  | OnYoutubeLinkChange Shape string
  | Persist bool

text \<open>\<^verbatim>\<open>xs.forEach(f)\<close>, where \<open>f\<close> adds the calls it makes to those made so far.\<close>

definition forEach :: "'a list \<Rightarrow> ('a \<Rightarrow> 'c list) \<Rightarrow> 'c list \<Rightarrow> 'c list" where
  "forEach xs f calls = fold (\<lambda>x done. done @ f x) xs calls"

text \<open>Lines 117 to 128.\<close>

definition AutoResizingAction_onPressedChange :: "Shape list \<Rightarrow> 'z \<Rightarrow> bool \<Rightarrow> 'z Call list" where
  "AutoResizingAction_onPressedChange selection zoom v =
     (let shapes = filterShapeByAction selection AutoResizing;
          calls = forEach shapes
            (\<lambda>s. if type (props s) = ''logseq-portal''
                  then [Update s (P_isAutoResizing v)]
                  else [OnResetBounds s (Some zoom)]) []
      in calls @ [Persist False])"

text \<open>Lines 158 to 163.\<close>

definition LogseqPortalViewModeAction_onValueChange :: "Shape list \<Rightarrow> string \<Rightarrow> 'z Call list" where
  "LogseqPortalViewModeAction_onValueChange selection v =
     (let shapes = filterShapeByAction selection LogseqPortalViewMode;
          calls = forEach shapes
            (\<lambda>shape. [SetCollapsed shape (if v = ''1'' then True else False)]) []
      in calls @ [Persist False])"

text \<open>Lines 203 to 208.\<close>

definition ScaleLevelAction_onValueChange :: "Shape list \<Rightarrow> string \<Rightarrow> 'z Call list" where
  "ScaleLevelAction_onValueChange selection v =
     (let shapes = filterShapeByAction selection ScaleLevel;
          calls = forEach shapes (\<lambda>shape. [SetScaleLevel shape v]) []
      in calls @ [Persist False])"

text \<open>
  Lines 245 to 248: the first shape only; with no such shape the method call throws
  before \<^verbatim>\<open>persist\<close> is reached.
\<close>

definition YoutubeLinkAction_handleChange :: "Shape list \<Rightarrow> string \<Rightarrow> js_error + 'z Call list" where
  "YoutubeLinkAction_handleChange selection value =
     (case array_at (filterShapeByAction selection YoutubeLink) 0 of
        None \<Rightarrow> Inl TypeError
      | Some shape \<Rightarrow> Inr ([OnYoutubeLinkChange shape value] @ [Persist False]))"

text \<open>Lines 276 to 279.\<close>

definition NoFillAction_handleChange :: "Shape list \<Rightarrow> bool \<Rightarrow> 'z Call list" where
  "NoFillAction_handleChange selection v =
     (let shapes = filterShapeByAction selection NoFill;
          calls = forEach shapes (\<lambda>s. [Update s (P_noFill v)]) []
      in calls @ [Persist False])"

text \<open>
  Lines 303 to 308: the handler that the debounce calls. It ignores its event and
  writes \<^verbatim>\<open>latestValue\<close>, the variable that the immediate function of line 310 sets.
\<close>

definition SwatchAction_handler :: "Shape list \<Rightarrow> string \<Rightarrow> 'z Call list" where
  "SwatchAction_handler selection latestValue =
     (let shapes = filterShapeByAction selection Swatch;
          calls = forEach shapes (\<lambda>s. [Update s (P_fill latestValue)]) []
      in calls @ [Persist True])"

text \<open>Lines 346 to 353.\<close>

definition StrokeTypeAction_onValueChange :: "Shape list \<Rightarrow> string \<Rightarrow> 'z Call list" where
  "StrokeTypeAction_onValueChange selection v =
     (let shapes = filterShapeByAction selection StrokeType;
          calls = forEach shapes (\<lambda>shape. [Update shape (P_strokeType v)]) []
      in calls @ [Persist False])"

text \<open>Lines 378 to 397.\<close>

definition valueToDecorations :: "string list \<Rightarrow> Decorations" where
  "valueToDecorations value =
     \<lparr>start = (if array_includes value ''start'' then Some Arrow else None),
      finish = (if array_includes value ''end'' then Some Arrow else None)\<rparr>"

definition ArrowModeAction_onValueChange :: "Shape list \<Rightarrow> string list \<Rightarrow> 'z Call list" where
  "ArrowModeAction_onValueChange selection v =
     (let shapes = filterShapeByAction selection ArrowMode;
          calls = forEach shapes (\<lambda>shape. [Update shape (P_decorations (valueToDecorations v))]) []
      in calls @ [Persist False])"

text \<open>Lines 415 to 423 and 431 to 439.\<close>

definition TextStyleAction_onBoldChange :: "Shape list \<Rightarrow> bool \<Rightarrow> 'z Call list" where
  "TextStyleAction_onBoldChange selection v =
     (let shapes = filterShapeByAction selection TextStyle;
          calls = forEach shapes
            (\<lambda>shape. [Update shape (P_fontWeight (if v then 700 else 400))]
                       @ [OnResetBounds shape None]) []
      in calls @ [Persist False])"

definition TextStyleAction_onItalicChange :: "Shape list \<Rightarrow> bool \<Rightarrow> 'z Call list" where
  "TextStyleAction_onItalicChange selection v =
     (let shapes = filterShapeByAction selection TextStyle;
          calls = forEach shapes
            (\<lambda>shape. [Update shape (P_italic v)] @ [OnResetBounds shape None]) []
      in calls @ [Persist False])"

text \<open>
  Reading a run of a handler: the shape a call is made on (none for \<^verbatim>\<open>persist\<close>), and
  whether a call is a \<^verbatim>\<open>persist\<close>.
\<close>

fun receiver :: "'z Call \<Rightarrow> Shape option" where
  "receiver (Update s p) = Some s"
| "receiver (OnResetBounds s z) = Some s"
| "receiver (SetCollapsed s b) = Some s"
| "receiver (SetScaleLevel s v) = Some s"
| "receiver (OnYoutubeLinkChange s v) = Some s"
| "receiver (Persist e) = None"

fun isPersist :: "'z Call \<Rightarrow> bool" where
  "isPersist (Persist e) = True"
| "isPersist c = False"

subsection \<open>The debounced colour handler\<close>

text \<open>
  Modelled from the spec: \<^verbatim>\<open>debounce\<close> is imported from \<^verbatim>\<open>@tldraw/core\<close> and is not in
  this file. The spec describes it as keeping only the latest pending value and committing
  on a trailing timer: outstanding pending updates are replaced, not queued. Time is
  counted in milliseconds. The state of the debounced handler of lines 301 to 312 is the
  variable \<^verbatim>\<open>latestValue\<close> (line 302), the time at which the pending timer is due, if one
  is pending, and the calls made so far.
\<close>

record 'z Debounced =
  latestValue :: string
  timeoutId :: "nat option"
  trace :: "'z Call list"

text \<open>Line 309: the window passed to \<^verbatim>\<open>debounce\<close>.\<close>

definition debounce_ms :: nat where
  "debounce_ms = 100"

text \<open>Lines 302 and 309: \<^verbatim>\<open>latestValue\<close> starts empty and no timer is pending.\<close>

definition debounced_init :: "'z Debounced" where
  "debounced_init = \<lparr>latestValue = [], timeoutId = None, trace = []\<rparr>"

text \<open>
  Modelled from the spec: the pending timer fires and commits. It runs the handler of
  lines 303 to 308, which writes the current \<^verbatim>\<open>latestValue\<close>, and nothing is pending
  afterwards.
\<close>

definition timer_fires :: "Shape list \<Rightarrow> 'z Debounced \<Rightarrow> 'z Debounced" where
  "timer_fires selection st =
     st\<lparr>trace := trace st @ SwatchAction_handler selection (latestValue st),
        timeoutId := None\<rparr>"

text \<open>
  Modelled from the spec: time passes up to \<open>now\<close>; a pending timer that is due by then
  has fired.
\<close>

definition time_passes :: "Shape list \<Rightarrow> nat \<Rightarrow> 'z Debounced \<Rightarrow> 'z Debounced" where
  "time_passes selection now st =
     (case timeoutId st of
        None \<Rightarrow> st
      | Some due \<Rightarrow> if due \<le> now then timer_fires selection st else st)"

text \<open>
  Modelled from the spec: the debounced function is called at time \<open>now\<close> with an input
  event carrying \<open>value\<close>. The immediate function of line 310 stores the value; the
  pending timer, if any, is replaced by one due a window later.
\<close>

definition handleChange :: "Shape list \<Rightarrow> nat \<Rightarrow> string \<Rightarrow> 'z Debounced \<Rightarrow> 'z Debounced" where
  "handleChange selection now value st =
     (time_passes selection now st)\<lparr>latestValue := value, timeoutId := Some (now + debounce_ms)\<rparr>"

text \<open>
  Modelled from the spec: a finite sequence of input events, each with its time, followed
  by silence, during which a timer still pending fires.
\<close>

fun run_events :: "Shape list \<Rightarrow> (nat \<times> string) list \<Rightarrow> 'z Debounced \<Rightarrow> 'z Debounced" where
  "run_events selection [] st =
     (case timeoutId st of None \<Rightarrow> st | Some due \<Rightarrow> timer_fires selection st)"
| "run_events selection ((now, value) # events) st =
     run_events selection events (handleChange selection now value st)"

text \<open>
  A burst: events in time order, each less than a window after the one before.
\<close>

fun burst :: "(nat \<times> string) list \<Rightarrow> bool" where
  "burst (e # e' # es) \<longleftrightarrow>
     fst e \<le> fst e' \<and> fst e' < fst e + debounce_ms \<and> burst (e' # es)"
| "burst [e] \<longleftrightarrow> True"
| "burst [] \<longleftrightarrow> False"

text \<open>
  The values that end a burst in a sequence of events: those not followed by another
  event within the window.
\<close>

fun burst_ends :: "(nat \<times> string) list \<Rightarrow> string list" where
  "burst_ends [] = []"
| "burst_ends [e] = [snd e]"
| "burst_ends (e # e' # es) =
     (if fst e + debounce_ms \<le> fst e' then [snd e] else []) @ burst_ends (e' # es)"

text \<open>
  A shape with the given type tag and default properties, for the concrete selections of
  the examples.
\<close>

definition exampleShape :: "ShapeType \<Rightarrow> Shape" where
  "exampleShape t =
     \<lparr>id = t,
      props = \<lparr>type = t, noFill = False, fill = ''#000000'', stroke = ''#000000'',
               strokeType = ''line'', isAutoResizing = False, fontWeight = 400,
               italic = False, decorations = None, url = [], pageId = [], blockType = ''B''\<rparr>,
      scaleLevel = None, collapsed = False\<rparr>"

text \<open>
  A box with the given fill colour and stroke type, for the examples about widgets.
\<close>

definition exampleBox :: "string \<Rightarrow> string \<Rightarrow> Shape" where
  "exampleBox colour st =
     (exampleShape ''box'')
       \<lparr>props := (props (exampleShape ''box''))\<lparr>fill := colour, strokeType := st\<rparr>\<rparr>"

text \<open>
  Two notions used to state the properties of the widgets. \<open>supports s T\<close>: the table lists
  the action \<open>T\<close> for the type of the shape \<open>s\<close>. \<open>disagree f xs\<close>: two shapes of \<open>xs\<close>
  differ in the value \<open>f\<close> reads.
\<close>

definition supports :: "Shape \<Rightarrow> ContextBarActionType \<Rightarrow> bool" where
  "supports s T = (case shapeMapping (type (props s)) of None \<Rightarrow> False | Some l \<Rightarrow> T \<in> set l)"

definition disagree :: "('a \<Rightarrow> 'b) \<Rightarrow> 'a list \<Rightarrow> bool" where
  "disagree f xs = (\<exists>x \<in> set xs. \<exists>y \<in> set xs. f x \<noteq> f y)"

section \<open>Properties of the resolver\<close>

subsection \<open>The set operations and the loop, as filters\<close>

lemma set_new_Set_aux: "set (fold set_add xs acc) = set xs \<union> set acc"
  by (induction xs arbitrary: acc) (auto simp: set_add_def)

lemma distinct_new_Set_aux: "distinct acc \<Longrightarrow> distinct (fold set_add xs acc)"
  by (induction xs arbitrary: acc) (auto simp: set_add_def)

lemma set_new_Set: "set (new_Set xs) = set xs"
  by (simp add: new_Set_def set_new_Set_aux)

lemma distinct_new_Set: "distinct (new_Set xs)"
  by (simp add: new_Set_def distinct_new_Set_aux)

lemma fold_delete:
  "fold (\<lambda>a s. if P a then filter (\<lambda>y. y \<noteq> a) s else s) xs s
     = filter (\<lambda>y. \<not> (y \<in> set xs \<and> P y)) s"
proof (induction xs arbitrary: s)
  case Nil
  then show ?case by simp
next
  case (Cons x xs)
  have "fold (\<lambda>a s. if P a then filter (\<lambda>y. y \<noteq> a) s else s) (x # xs) s
      = filter (\<lambda>y. \<not> (y \<in> set xs \<and> P y)) (if P x then filter (\<lambda>y. y \<noteq> x) s else s)"
    by (simp only: fold_simps Cons.IH)
  also have "\<dots> = filter (\<lambda>y. \<not> (y \<in> set (x # xs) \<and> P y)) s"
    by (auto intro: filter_cong)
  finally show ?case .
qed

lemma intersect_step_filter:
  "intersect_step other acts = filter (\<lambda>a. a \<in> set other) acts"
proof -
  have "intersect_step other acts
      = fold (\<lambda>a s. if a \<notin> set other then filter (\<lambda>y. y \<noteq> a) s else s) acts acts"
    unfolding intersect_step_def array_includes_def set_delete_def by simp
  also have "\<dots> = filter (\<lambda>y. \<not> (y \<in> set acts \<and> y \<notin> set other)) acts"
    by (rule fold_delete)
  also have "\<dots> = filter (\<lambda>a. a \<in> set other) acts"
    by (auto intro: filter_cong)
  finally show ?thesis .
qed

lemma intersect_loop_filter:
  "intersect_loop i types acts =
     filter (\<lambda>a. \<forall>t \<in> set (drop i types). a \<in> set (getContextBarActionTypes t)) acts"
proof (induction i types acts rule: intersect_loop.induct)
  case (1 i types acts)
  show ?case
  proof (cases "i < length types \<and> length acts > 0")
    case True
    then have d: "drop i types = types ! i # drop (i + 1) types"
      by (simp add: Cons_nth_drop_Suc)
    show ?thesis
      using True 1
      by (subst intersect_loop.simps) (auto simp: d intersect_step_filter intro: filter_cong)
  next
    case False
    then show ?thesis
      by (subst intersect_loop.simps) (auto intro!: filter_True[symmetric])
  qed
qed

lemma delete_if_has: "(if set_has s a then set_delete a s else s) = filter (\<lambda>y. y \<noteq> a) s"
proof (cases "a \<in> set s")
  case True
  then show ?thesis by (simp add: set_has_def set_delete_def)
next
  case False
  then have "filter (\<lambda>y. y \<noteq> a) s = s"
    by (auto simp: filter_id_conv)
  with False show ?thesis by (simp add: set_has_def)
qed

lemma drop_singleShapeActions_filter:
  "drop_singleShapeActions acts = filter (\<lambda>a. a \<notin> set singleShapeActions) acts"
proof -
  have "drop_singleShapeActions acts
      = fold (\<lambda>a s. if True then filter (\<lambda>y. y \<noteq> a) s else s) singleShapeActions acts"
    unfolding drop_singleShapeActions_def delete_if_has by simp
  also have "\<dots> = filter (\<lambda>y. \<not> (y \<in> set singleShapeActions \<and> True)) acts"
    by (rule fold_delete)
  finally show ?thesis by simp
qed


lemma indexOf_enum:
  "indexOf contextBarActionTypes a =
     (case a of Edit \<Rightarrow> 0 | AutoResizing \<Rightarrow> 1 | Swatch \<Rightarrow> 2 | NoFill \<Rightarrow> 3
      | StrokeType \<Rightarrow> 4 | ScaleLevel \<Rightarrow> 5 | TextStyle \<Rightarrow> 6 | YoutubeLink \<Rightarrow> 7
      | LogseqPortalViewMode \<Rightarrow> 8 | ArrowMode \<Rightarrow> 9 | OpenPage \<Rightarrow> 10)"
  by (cases a) (simp_all add: contextBarActionTypes_def)

lemma inj_indexOf_enum: "inj (indexOf contextBarActionTypes)"
proof (rule injI)
  fix a b
  assume "indexOf contextBarActionTypes a = indexOf contextBarActionTypes b"
  then show "a = b"
    unfolding indexOf_enum by (cases a; cases b; simp)
qed

lemma enum_complete: "a \<in> set contextBarActionTypes"
  by (cases a) (simp_all add: contextBarActionTypes_def)

lemma enum_key_sorted: "sorted (map (indexOf contextBarActionTypes) contextBarActionTypes)"
  by (simp add: contextBarActionTypes_def)

lemma enum_distinct: "distinct contextBarActionTypes"
  by (simp add: contextBarActionTypes_def)

lemma sort_key_enum:
  assumes "distinct xs"
  shows "sort_key (indexOf contextBarActionTypes) xs
           = filter (\<lambda>a. a \<in> set xs) contextBarActionTypes"
proof -
  let ?k = "indexOf contextBarActionTypes"
  let ?l = "sort_key ?k xs"
  let ?r = "filter (\<lambda>a. a \<in> set xs) contextBarActionTypes"
  have inj: "inj_on ?k A" for A
    using inj_indexOf_enum by (rule inj_on_subset) simp
  have "sorted (map ?k ?l)" by simp
  moreover have "distinct (map ?k ?l)"
    using assms by (simp add: distinct_map inj)
  moreover have "sorted (map ?k ?r)"
    using enum_key_sorted by (rule sorted_filter)
  moreover have "distinct (map ?k ?r)"
    using enum_distinct by (simp add: distinct_map inj)
  moreover have "set (map ?k ?l) = set (map ?k ?r)"
    using enum_complete by auto
  ultimately have "map ?k ?l = map ?k ?r"
    by (rule sorted_distinct_set_unique)
  then show ?thesis
    using inj_indexOf_enum by (simp add: inj_map_eq_map)
qed

lemma selectedActionTypes_Cons:
  "selectedActionTypes (s # rest) =
     filter (\<lambda>a. (\<forall>r \<in> set rest. a \<in> set (getContextBarActionTypes (type (props r))))
                 \<and> (rest \<noteq> [] \<longrightarrow> a \<notin> set singleShapeActions))
       (new_Set (getContextBarActionTypes (type (props s))))"
  by (auto simp: selectedActionTypes_def Let_def intersect_loop_filter
        drop_singleShapeActions_filter intro: filter_cong)

lemma selectedActionTypes_Nil: "selectedActionTypes [] = []"
  by (simp add: selectedActionTypes_def new_Set_def intersect_loop.simps)

lemma distinct_selectedActionTypes: "distinct (selectedActionTypes shapes)"
  by (cases shapes) (simp_all add: selectedActionTypes_Nil selectedActionTypes_Cons distinct_new_Set)

lemma set_selectedActionTypes:
  "shapes \<noteq> [] \<Longrightarrow>
   set (selectedActionTypes shapes) =
     {a. (\<forall>s \<in> set shapes. a \<in> set (getContextBarActionTypes (type (props s))))
          \<and> (1 < length shapes \<longrightarrow> a \<notin> set singleShapeActions)}"
  by (cases shapes) (auto simp: selectedActionTypes_Cons set_new_Set)

lemma sorted_selectedActionTypes:
  "shapes \<noteq> [] \<Longrightarrow>
   sort_key (indexOf contextBarActionTypes) (selectedActionTypes shapes) =
     filter (\<lambda>a. (\<forall>s \<in> set shapes. a \<in> set (getContextBarActionTypes (type (props s))))
                 \<and> (1 < length shapes \<longrightarrow> a \<notin> set singleShapeActions))
       contextBarActionTypes"
  by (simp add: sort_key_enum distinct_selectedActionTypes set_selectedActionTypes)

lemma getContextBarActionTypes_mem:
  "a \<in> set (getContextBarActionTypes t) \<longleftrightarrow> (\<exists>l. shapeMapping t = Some l \<and> a \<in> set l)"
  by (cases "shapeMapping t") (simp_all add: getContextBarActionTypes_def isNonNullable_def)


subsection \<open>The tables\<close>

lemma contextBarActionMapping_eq:
  "contextBarActionMapping a =
     Some (case a of Edit \<Rightarrow> EditAction | AutoResizing \<Rightarrow> AutoResizingAction
           | Swatch \<Rightarrow> SwatchAction | NoFill \<Rightarrow> NoFillAction | StrokeType \<Rightarrow> StrokeTypeAction
           | ScaleLevel \<Rightarrow> ScaleLevelAction | TextStyle \<Rightarrow> TextStyleAction
           | YoutubeLink \<Rightarrow> YoutubeLinkAction
           | LogseqPortalViewMode \<Rightarrow> LogseqPortalViewModeAction
           | ArrowMode \<Rightarrow> ArrowModeAction | OpenPage \<Rightarrow> OpenPageAction)"
  by (cases a) (simp_all add: contextBarActionMapping_def contextBarActionMapping_sets_def)

lemma inj_contextBarActionMapping: "inj contextBarActionMapping"
proof (rule injI)
  fix a b
  assume "contextBarActionMapping a = contextBarActionMapping b"
  then show "a = b"
    unfolding contextBarActionMapping_eq by (cases a; cases b; simp)
qed

lemma getContextBarActionsForTypes_filter:
  "shapes \<noteq> [] \<Longrightarrow>
   getContextBarActionsForTypes shapes =
     map contextBarActionMapping
       (filter (\<lambda>a. (\<forall>s \<in> set shapes. \<exists>l. shapeMapping (type (props s)) = Some l \<and> a \<in> set l)
                 \<and> (1 < length shapes \<longrightarrow> a \<notin> set singleShapeActions))
       contextBarActionTypes)"
  by (simp add: getContextBarActionsForTypes_def sorted_selectedActionTypes
        getContextBarActionTypes_mem)

lemma getContextBarActionsForTypes_Nil: "getContextBarActionsForTypes [] = []"
  by (simp add: getContextBarActionsForTypes_def selectedActionTypes_Nil)

lemma shapeMapping_simps:
  "shapeMapping ''logseq-portal'' = Some [Edit, LogseqPortalViewMode, ScaleLevel, OpenPage, AutoResizing]"
  "shapeMapping ''youtube'' = Some [YoutubeLink]"
  "shapeMapping ''box'' = Some [Swatch, NoFill, StrokeType]"
  "shapeMapping ''ellipse'' = Some [Swatch, NoFill, StrokeType]"
  "shapeMapping ''polygon'' = Some [Swatch, NoFill, StrokeType]"
  "shapeMapping ''line'' = Some [Edit, Swatch, ArrowMode]"
  "shapeMapping ''pencil'' = Some [Swatch]"
  "shapeMapping ''highlighter'' = Some [Swatch]"
  "shapeMapping ''text'' = Some [Edit, Swatch, ScaleLevel, AutoResizing, TextStyle]"
  "shapeMapping ''html'' = Some [ScaleLevel, AutoResizing]"
  by (simp_all add: shapeMapping_def shapeMapping_entries_def)

lemma shapeMapping_distinct: "shapeMapping t = Some l \<Longrightarrow> distinct l"
  by (auto simp: shapeMapping_def shapeMapping_entries_def split: if_splits)

lemma exampleShape_type [simp]: "type (props (exampleShape t)) = t"
  by (simp add: exampleShape_def)

subsection \<open>What the resolver returns\<close>

text \<open>
  Claim C1. For every non-empty list of shapes, \<^verbatim>\<open>getContextBarActionsForTypes\<close> returns
  the components of exactly those action identifiers that the static table
  \<^verbatim>\<open>shapeMapping\<close> lists for the type of every shape of the selection, without the
  single-shape actions when the selection has more than one shape, in the order of the
  enumeration \<^verbatim>\<open>contextBarActionTypes\<close>. The identifiers can be read back from the
  components: the mapping from identifiers to components is injective and no entry of
  the result is \<^verbatim>\<open>undefined\<close>.
\<close>

theorem resolver_common_actions:
  assumes "shapes \<noteq> []"
  shows "getContextBarActionsForTypes shapes =
           map contextBarActionMapping
             (filter (\<lambda>a. (\<forall>s \<in> set shapes. \<exists>l. shapeMapping (type (props s)) = Some l \<and> a \<in> set l)
                       \<and> (1 < length shapes \<longrightarrow> a \<notin> set singleShapeActions))
                contextBarActionTypes)
         \<and> inj contextBarActionMapping
         \<and> None \<notin> set (getContextBarActionsForTypes shapes)"
proof -
  have "None \<notin> set (getContextBarActionsForTypes shapes)"
    by (auto simp: getContextBarActionsForTypes_def contextBarActionMapping_eq)
  with assms show ?thesis
    using getContextBarActionsForTypes_filter inj_contextBarActionMapping by blast
qed

theorem resolver_common_actions_witness:
  "[exampleShape ''box'', exampleShape ''line''] \<noteq> []
   \<and> getContextBarActionsForTypes [exampleShape ''box'', exampleShape ''line''] = [Some SwatchAction]"
proof -
  have h: "[exampleShape ''box'', exampleShape ''line''] \<noteq> []" by simp
  show ?thesis
    using resolver_common_actions [OF h]
    by (simp add: shapeMapping_simps contextBarActionTypes_def singleShapeActions_def
          contextBarActionMapping_eq)
qed

lemma single_not_selected:
  assumes "1 < length shapes" and "a \<in> set singleShapeActions"
  shows "contextBarActionMapping a \<notin> set (getContextBarActionsForTypes shapes)"
proof -
  from assms(1) have ne: "shapes \<noteq> []" by auto
  show ?thesis
    using assms
    by (auto simp: getContextBarActionsForTypes_filter [OF ne]
          dest: injD [OF inj_contextBarActionMapping])
qed

text \<open>
  Claim C3. For every selection of more than one shape, the result holds the component
  of none of the single-shape actions \<^verbatim>\<open>Edit\<close>, \<^verbatim>\<open>YoutubeLink\<close> and \<^verbatim>\<open>OpenPage\<close>.
  A selection of one \<^verbatim>\<open>logseq-portal\<close> shape yields a result with \<^verbatim>\<open>Edit\<close> and
  \<^verbatim>\<open>OpenPage\<close>; a selection of two such shapes yields a result without them.
\<close>

theorem single_shape_actions_excluded:
  "(1 < length shapes \<longrightarrow>
      (\<forall>a \<in> set singleShapeActions.
         contextBarActionMapping a \<notin> set (getContextBarActionsForTypes shapes))
      \<and> Some EditAction \<notin> set (getContextBarActionsForTypes shapes)
      \<and> Some YoutubeLinkAction \<notin> set (getContextBarActionsForTypes shapes)
      \<and> Some OpenPageAction \<notin> set (getContextBarActionsForTypes shapes))
   \<and> (type (props p) = ''logseq-portal'' \<longrightarrow>
        Some EditAction \<in> set (getContextBarActionsForTypes [p])
        \<and> Some OpenPageAction \<in> set (getContextBarActionsForTypes [p]))
   \<and> (type (props p) = ''logseq-portal'' \<and> type (props q) = ''logseq-portal'' \<longrightarrow>
        Some EditAction \<notin> set (getContextBarActionsForTypes [p, q])
        \<and> Some OpenPageAction \<notin> set (getContextBarActionsForTypes [p, q]))"
proof -
  have gen: "contextBarActionMapping a \<notin> set (getContextBarActionsForTypes xs)"
    if "1 < length xs" "a \<in> set singleShapeActions" for xs a
    using that by (rule single_not_selected)
  have named: "Some EditAction \<notin> set (getContextBarActionsForTypes xs)
      \<and> Some YoutubeLinkAction \<notin> set (getContextBarActionsForTypes xs)
      \<and> Some OpenPageAction \<notin> set (getContextBarActionsForTypes xs)"
    if "1 < length xs" for xs
    using gen [OF that, of Edit] gen [OF that, of YoutubeLink] gen [OF that, of OpenPage]
    by (simp add: singleShapeActions_def contextBarActionMapping_eq)
  have one: "Some EditAction \<in> set (getContextBarActionsForTypes [p])
      \<and> Some OpenPageAction \<in> set (getContextBarActionsForTypes [p])"
    if "type (props p) = ''logseq-portal''"
    using that
    by (simp add: getContextBarActionsForTypes_filter shapeMapping_simps
          contextBarActionTypes_def contextBarActionMapping_eq)
  have two: "Some EditAction \<notin> set (getContextBarActionsForTypes [p, q])
      \<and> Some OpenPageAction \<notin> set (getContextBarActionsForTypes [p, q])"
    using named [of "[p, q]"] by simp
  show ?thesis
    using gen named one two by blast
qed

theorem single_shape_actions_excluded_witness:
  "Some EditAction \<in> set (getContextBarActionsForTypes [exampleShape ''logseq-portal''])
   \<and> Some OpenPageAction \<in> set (getContextBarActionsForTypes [exampleShape ''logseq-portal''])
   \<and> Some EditAction \<notin> set (getContextBarActionsForTypes
         [exampleShape ''logseq-portal'', exampleShape ''logseq-portal''])
   \<and> Some OpenPageAction \<notin> set (getContextBarActionsForTypes
         [exampleShape ''logseq-portal'', exampleShape ''logseq-portal''])
   \<and> Some YoutubeLinkAction \<notin> set (getContextBarActionsForTypes
         [exampleShape ''youtube'', exampleShape ''youtube''])"
  using single_shape_actions_excluded
          [of "[exampleShape ''youtube'', exampleShape ''youtube'']"
              "exampleShape ''logseq-portal''" "exampleShape ''logseq-portal''"]
  by simp

text \<open>
  Claim C4. For every selection, the identifiers the resolver produces, and so the
  components it returns, form a subsequence of the enumeration
  \<^verbatim>\<open>contextBarActionTypes\<close> in its declaration order; and two selections that hold the
  same shapes in a different order give the same result.
\<close>

theorem resolver_order:
  "subseq (sort_key (indexOf contextBarActionTypes) (selectedActionTypes shapes))
          contextBarActionTypes
   \<and> subseq (getContextBarActionsForTypes shapes)
             (map contextBarActionMapping contextBarActionTypes)
   \<and> (mset shapes' = mset shapes \<longrightarrow>
        getContextBarActionsForTypes shapes' = getContextBarActionsForTypes shapes)"
proof -
  have ids: "subseq (sort_key (indexOf contextBarActionTypes) (selectedActionTypes shapes))
               contextBarActionTypes"
    by (simp add: sort_key_enum distinct_selectedActionTypes)
  then have comps: "subseq (getContextBarActionsForTypes shapes)
                      (map contextBarActionMapping contextBarActionTypes)"
    unfolding getContextBarActionsForTypes_def by (rule subseq_map)
  have perm: "getContextBarActionsForTypes shapes' = getContextBarActionsForTypes shapes"
    if eq: "mset shapes' = mset shapes"
  proof (cases "shapes = []")
    case True
    with eq show ?thesis by simp
  next
    case False
    with eq have ne: "shapes' \<noteq> []" by auto
    from eq have s: "set shapes' = set shapes" by (rule mset_eq_setD)
    from eq have l: "length shapes' = length shapes" by (rule mset_eq_length)
    show ?thesis
      by (simp add: getContextBarActionsForTypes_filter [OF ne]
            getContextBarActionsForTypes_filter [OF False] s l)
  qed
  from ids comps perm show ?thesis by blast
qed

theorem resolver_order_witness:
  "getContextBarActionsForTypes [exampleShape ''line'', exampleShape ''text'']
     = getContextBarActionsForTypes [exampleShape ''text'', exampleShape ''line'']
   \<and> getContextBarActionsForTypes [exampleShape ''text'', exampleShape ''line''] = [Some SwatchAction]"
proof -
  have h: "mset [exampleShape ''line'', exampleShape ''text'']
             = mset [exampleShape ''text'', exampleShape ''line'']"
    by simp
  have "getContextBarActionsForTypes [exampleShape ''text'', exampleShape ''line''] = [Some SwatchAction]"
    by (simp add: getContextBarActionsForTypes_filter shapeMapping_simps
          contextBarActionTypes_def singleShapeActions_def contextBarActionMapping_eq)
  then show ?thesis
    using resolver_order [of "[exampleShape ''text'', exampleShape ''line'']"
                             "[exampleShape ''line'', exampleShape ''text'']"] h
    by simp
qed

text \<open>
  Claim C5. The empty selection gives the empty result. A shape whose type is not a key
  of \<^verbatim>\<open>shapeMapping\<close> contributes the empty list of actions, and any selection
  holding such a shape gives the empty set of identifiers and the empty result.
\<close>

theorem resolver_boundaries:
  "getContextBarActionsForTypes [] = []
   \<and> (s \<in> set shapes \<and> shapeMapping (type (props s)) = None \<longrightarrow>
        getContextBarActionTypes (type (props s)) = []
        \<and> selectedActionTypes shapes = []
        \<and> getContextBarActionsForTypes shapes = [])"
proof -
  have unknown: "getContextBarActionTypes (type (props s)) = []
        \<and> selectedActionTypes shapes = []
        \<and> getContextBarActionsForTypes shapes = []"
    if mem: "s \<in> set shapes" and none: "shapeMapping (type (props s)) = None"
  proof -
    from mem have ne: "shapes \<noteq> []" by auto
    have g: "getContextBarActionTypes (type (props s)) = []"
      using none by (simp add: getContextBarActionTypes_def)
    have sel: "selectedActionTypes shapes = []"
    proof (cases "selectedActionTypes shapes")
      case Nil
      then show ?thesis .
    next
      case (Cons a as)
      then have "a \<in> set (selectedActionTypes shapes)" by simp
      then have "a \<in> set (getContextBarActionTypes (type (props s)))"
        using mem by (simp add: set_selectedActionTypes [OF ne])
      with g show ?thesis by simp
    qed
    then show ?thesis
      using g by (simp add: getContextBarActionsForTypes_def)
  qed
  show ?thesis
    using getContextBarActionsForTypes_Nil unknown by blast
qed

theorem resolver_boundaries_witness:
  "exampleShape ''image'' \<in> set [exampleShape ''box'', exampleShape ''image'']
   \<and> shapeMapping ''image'' = None
   \<and> getContextBarActionsForTypes [exampleShape ''box'', exampleShape ''image''] = []"
proof -
  have n: "shapeMapping ''image'' = None"
    by (simp add: shapeMapping_def shapeMapping_entries_def)
  show ?thesis
    using resolver_boundaries [of "exampleShape ''image''"
            "[exampleShape ''box'', exampleShape ''image'']"] n
    by simp
qed

text \<open>
  Claim C7. For a selection of one shape whose type has the list \<open>L\<close> in
  \<^verbatim>\<open>shapeMapping\<close>, the resolver returns the components of the identifiers of \<open>L\<close>:
  the identifiers produced are a permutation of \<open>L\<close> (none added, none dropped), sorted
  by their position in the enumeration.
\<close>

theorem single_shape_all_actions:
  assumes "shapeMapping (type (props s)) = Some L"
  shows "getContextBarActionsForTypes [s] =
           map contextBarActionMapping (filter (\<lambda>a. a \<in> set L) contextBarActionTypes)
         \<and> mset (sort_key (indexOf contextBarActionTypes) (selectedActionTypes [s])) = mset L
         \<and> sorted (map (indexOf contextBarActionTypes)
              (sort_key (indexOf contextBarActionTypes) (selectedActionTypes [s])))"
proof -
  have f: "getContextBarActionsForTypes [s] =
           map contextBarActionMapping (filter (\<lambda>a. a \<in> set L) contextBarActionTypes)"
    using assms by (simp add: getContextBarActionsForTypes_filter)
  have d: "distinct L"
    using assms by (rule shapeMapping_distinct)
  have "set (selectedActionTypes [s]) = set L"
    using assms by (auto simp: set_selectedActionTypes getContextBarActionTypes_mem)
  then have "mset (selectedActionTypes [s]) = mset L"
    using d distinct_selectedActionTypes [of "[s]"] by (simp add: set_eq_iff_mset_eq_distinct)
  then have m: "mset (sort_key (indexOf contextBarActionTypes) (selectedActionTypes [s])) = mset L"
    by simp
  show ?thesis
    using f m by simp
qed

theorem single_shape_all_actions_witness:
  "shapeMapping (type (props (exampleShape ''logseq-portal'')))
     = Some [Edit, LogseqPortalViewMode, ScaleLevel, OpenPage, AutoResizing]
   \<and> getContextBarActionsForTypes [exampleShape ''logseq-portal'']
       = [Some EditAction, Some AutoResizingAction, Some ScaleLevelAction,
          Some LogseqPortalViewModeAction, Some OpenPageAction]"
proof -
  have h: "shapeMapping (type (props (exampleShape ''logseq-portal'')))
     = Some [Edit, LogseqPortalViewMode, ScaleLevel, OpenPage, AutoResizing]"
    by (simp add: shapeMapping_simps)
  show ?thesis
    using single_shape_all_actions [OF h] h
    by (simp add: contextBarActionTypes_def contextBarActionMapping_eq)
qed

text \<open>
  Claim C8. A selection of a box and an ellipse resolves to the components of
  \<^verbatim>\<open>Swatch\<close>, \<^verbatim>\<open>NoFill\<close>, \<^verbatim>\<open>StrokeType\<close>, in that order; a selection of a box
  and a line resolves to the component of \<^verbatim>\<open>Swatch\<close> alone.
\<close>

theorem example_selections:
  "(type (props b) = ''box'' \<and> type (props e) = ''ellipse'' \<longrightarrow>
      getContextBarActionsForTypes [b, e]
        = [Some SwatchAction, Some NoFillAction, Some StrokeTypeAction])
   \<and> (type (props b) = ''box'' \<and> type (props l) = ''line'' \<longrightarrow>
      getContextBarActionsForTypes [b, l] = [Some SwatchAction])"
  by (simp add: getContextBarActionsForTypes_filter shapeMapping_simps
        contextBarActionTypes_def singleShapeActions_def contextBarActionMapping_eq)

theorem example_selections_witness:
  "getContextBarActionsForTypes [exampleShape ''box'', exampleShape ''ellipse'']
        = [Some SwatchAction, Some NoFillAction, Some StrokeTypeAction]
   \<and> getContextBarActionsForTypes [exampleShape ''box'', exampleShape ''line''] = [Some SwatchAction]"
  using example_selections [of "exampleShape ''box''" "exampleShape ''ellipse''" "exampleShape ''line''"]
  by simp

section \<open>Properties of the widgets\<close>

lemma filterShapeByAction_filter:
  "filterShapeByAction selection T =
     filter (\<lambda>s. \<exists>l. shapeMapping (type (props s)) = Some l \<and> T \<in> set l) selection"
  unfolding filterShapeByAction_def
  by (rule filter_cong) (auto simp: array_includes_def split: option.splits)

lemma array_at_0: "array_at (x # xs) 0 = Some x" "array_at [] 0 = None"
  by (simp_all add: array_at_def)

lemma selected_supports:
  assumes "contextBarActionMapping T \<in> set (getContextBarActionsForTypes selection)"
  shows "selection \<noteq> [] \<and>
         (\<forall>s \<in> set selection. \<exists>l. shapeMapping (type (props s)) = Some l \<and> T \<in> set l)"
proof -
  have ne: "selection \<noteq> []"
    using assms by (auto simp: getContextBarActionsForTypes_Nil)
  have "T \<in> set (filter (\<lambda>a. (\<forall>s \<in> set selection. \<exists>l. shapeMapping (type (props s)) = Some l \<and> a \<in> set l)
                 \<and> (1 < length selection \<longrightarrow> a \<notin> set singleShapeActions)) contextBarActionTypes)"
    using assms unfolding getContextBarActionsForTypes_filter [OF ne]
    by (simp add: inj_image_mem_iff [OF inj_contextBarActionMapping])
  with ne show ?thesis by simp
qed

text \<open>
  Claim C10. For every action \<open>T\<close> and every non-empty selection in which the table
  lists \<open>T\<close> for the type of every shape, \<^verbatim>\<open>filterShapeByAction\<close> returns the whole
  selection, which is not empty, so its first element is a shape: the reads of that
  element by the Edit, Swatch, ScaleLevel, OpenPage and YoutubeLink widgets do not fail.
  The premise holds whenever the resolver has returned the component of \<open>T\<close> for the
  selection.
\<close>

theorem filterShapeByAction_whole_selection:
  "(selection \<noteq> [] \<and>
      (\<forall>s \<in> set selection. \<exists>l. shapeMapping (type (props s)) = Some l \<and> T \<in> set l) \<longrightarrow>
        filterShapeByAction selection T = selection
        \<and> filterShapeByAction selection T \<noteq> []
        \<and> array_at (filterShapeByAction selection T) 0 = Some (hd selection)
        \<and> (T = Edit \<longrightarrow> EditAction_shape selection = Some (hd selection))
        \<and> (T = Swatch \<longrightarrow> SwatchAction_value selection \<noteq> Inl TypeError)
        \<and> (T = ScaleLevel \<longrightarrow> ScaleLevelAction_scaleLevel selection \<noteq> Inl TypeError)
        \<and> (T = OpenPage \<longrightarrow> OpenPageAction_props selection \<noteq> Inl TypeError)
        \<and> (T = YoutubeLink \<longrightarrow> YoutubeLinkAction_value selection \<noteq> Inl TypeError))
   \<and> (contextBarActionMapping T \<in> set (getContextBarActionsForTypes selection) \<longrightarrow>
        selection \<noteq> [] \<and> filterShapeByAction selection T = selection)"
proof -
  have whole: "filterShapeByAction selection T = selection"
    if "\<forall>s \<in> set selection. \<exists>l. shapeMapping (type (props s)) = Some l \<and> T \<in> set l"
    using that by (simp add: filterShapeByAction_filter)
  have first: "array_at selection 0 = Some (hd selection)" if "selection \<noteq> []"
    using that by (cases selection) (simp_all add: array_at_0)
  have reads: "filterShapeByAction selection T = selection
        \<and> filterShapeByAction selection T \<noteq> []
        \<and> array_at (filterShapeByAction selection T) 0 = Some (hd selection)
        \<and> (T = Edit \<longrightarrow> EditAction_shape selection = Some (hd selection))
        \<and> (T = Swatch \<longrightarrow> SwatchAction_value selection \<noteq> Inl TypeError)
        \<and> (T = ScaleLevel \<longrightarrow> ScaleLevelAction_scaleLevel selection \<noteq> Inl TypeError)
        \<and> (T = OpenPage \<longrightarrow> OpenPageAction_props selection \<noteq> Inl TypeError)
        \<and> (T = YoutubeLink \<longrightarrow> YoutubeLinkAction_value selection \<noteq> Inl TypeError)"
    if ne: "selection \<noteq> []"
      and all: "\<forall>s \<in> set selection. \<exists>l. shapeMapping (type (props s)) = Some l \<and> T \<in> set l"
  proof -
    note w = whole [OF all]
    note f = first [OF ne]
    show ?thesis
      using ne w f
      by (auto simp: EditAction_shape_def SwatchAction_value_def Let_def
            ScaleLevelAction_scaleLevel_def OpenPageAction_props_def YoutubeLinkAction_value_def)
  qed
  have mounted: "selection \<noteq> [] \<and> filterShapeByAction selection T = selection"
    if "contextBarActionMapping T \<in> set (getContextBarActionsForTypes selection)"
    using selected_supports [OF that] whole by blast
  show ?thesis
    using reads mounted by blast
qed

theorem filterShapeByAction_whole_selection_witness:
  "[exampleShape ''text'', exampleShape ''html''] \<noteq> []
   \<and> filterShapeByAction [exampleShape ''text'', exampleShape ''html''] ScaleLevel
       = [exampleShape ''text'', exampleShape ''html'']
   \<and> ScaleLevelAction_scaleLevel [exampleShape ''text'', exampleShape ''html''] \<noteq> Inl TypeError
   \<and> contextBarActionMapping ScaleLevel
       \<in> set (getContextBarActionsForTypes [exampleShape ''text'', exampleShape ''html''])"
proof -
  have h: "\<forall>s \<in> set [exampleShape ''text'', exampleShape ''html''].
             \<exists>l. shapeMapping (type (props s)) = Some l \<and> ScaleLevel \<in> set l"
    by (simp add: shapeMapping_simps)
  have m: "contextBarActionMapping ScaleLevel
       \<in> set (getContextBarActionsForTypes [exampleShape ''text'', exampleShape ''html''])"
    by (simp add: getContextBarActionsForTypes_filter shapeMapping_simps
          contextBarActionTypes_def singleShapeActions_def contextBarActionMapping_eq)
  show ?thesis
    using filterShapeByAction_whole_selection
            [of "[exampleShape ''text'', exampleShape ''html'']" ScaleLevel] h m
    by simp
qed

lemma exampleBox_simps:
  "type (props (exampleBox c st)) = ''box''"
  "fill (props (exampleBox c st)) = c"
  "strokeType (props (exampleBox c st)) = st"
  "noFill (props (exampleBox c st)) = False"
  by (simp_all add: exampleBox_def exampleShape_def)

subsection \<open>Display values\<close>

text \<open>
  Claim C2, as stated, fails for the Swatch widget. Two selected boxes, neither with
  \<^verbatim>\<open>noFill\<close>, one filled red and one filled blue, both match the Swatch action and
  disagree on the colour; the widget displays the red of the first box, not a neutral
  value.
\<close>

theorem swatch_displays_first_colour:
  "filterShapeByAction [exampleBox ''#ff0000'' ''line'', exampleBox ''#0000ff'' ''line''] Swatch
     = [exampleBox ''#ff0000'' ''line'', exampleBox ''#0000ff'' ''line'']
   \<and> fill (props (exampleBox ''#ff0000'' ''line'')) = ''#ff0000''
   \<and> fill (props (exampleBox ''#0000ff'' ''line'')) = ''#0000ff''
   \<and> noFill (props (exampleBox ''#ff0000'' ''line'')) = False
   \<and> noFill (props (exampleBox ''#0000ff'' ''line'')) = False
   \<and> SwatchAction_value [exampleBox ''#ff0000'' ''line'', exampleBox ''#0000ff'' ''line''] = Inr ''#ff0000''"
  by (simp add: filterShapeByAction_filter SwatchAction_value_def exampleBox_simps
        shapeMapping_simps array_at_0)

lemma length_new_Set: "length (new_Set xs) = card (set xs)"
  using distinct_card [OF distinct_new_Set, of xs] by (simp add: set_new_Set)

lemma disagree_card: "disagree f xs \<Longrightarrow> 1 < card (set (map f xs))"
proof -
  assume "disagree f xs"
  then obtain x y where x: "x \<in> set xs" and y: "y \<in> set xs" and ne: "f x \<noteq> f y"
    by (auto simp: disagree_def)
  have "{f x, f y} \<subseteq> set (map f xs)" using x y by auto
  then have "card {f x, f y} \<le> card (set (map f xs))"
    by (intro card_mono) auto
  with ne show ?thesis by simp
qed

lemma disagree_every:
  assumes "disagree f xs"
  shows "\<not> every (\<lambda>x. f x = c) xs"
proof
  assume "every (\<lambda>x. f x = c) xs"
  then have "\<forall>x \<in> set xs. f x = c"
    by (simp add: every_def list_all_iff)
  with assms show False
    by (auto simp: disagree_def)
qed

lemma disagree_every_bool:
  "disagree p xs \<Longrightarrow> \<not> every p xs"
  by (auto simp: disagree_def every_def list_all_iff)

text \<open>
  Claim C2, amended. Whenever the shapes matching a widget disagree on the property it
  reads: the StrokeType widget displays \<^verbatim>\<open>mixed\<close>; the ScaleLevel widget displays the
  empty string; the widgets whose display is a boolean over all matching shapes (NoFill,
  AutoResizing, the view mode, bold, italic, each arrow head) display the off state. The
  Swatch widget has no neutral state: it displays the colour of the first matching shape
  (its stroke when it has \<^verbatim>\<open>noFill\<close>, else its fill), whatever the other shapes hold.
\<close>

theorem display_values:
  "(disagree (\<lambda>s. strokeType (props s)) (filterShapeByAction selection StrokeType) \<longrightarrow>
      StrokeTypeAction_value selection = ''mixed'')
   \<and> (disagree scaleLevel (filterShapeByAction selection ScaleLevel) \<longrightarrow>
      ScaleLevelAction_scaleLevel selection = Inr (Some []))
   \<and> (disagree (\<lambda>s. noFill (props s)) (filterShapeByAction selection NoFill) \<longrightarrow>
      \<not> NoFillAction_noFill selection)
   \<and> (disagree (\<lambda>s. isAutoResizing (props s)) (filterShapeByAction selection AutoResizing) \<longrightarrow>
      \<not> AutoResizingAction_pressed selection)
   \<and> (disagree collapsed (filterShapeByAction selection LogseqPortalViewMode) \<longrightarrow>
      LogseqPortalViewModeAction_value selection = ''0'')
   \<and> (disagree (\<lambda>s. fontWeight (props s) > 500) (filterShapeByAction selection TextStyle) \<longrightarrow>
      \<not> TextStyleAction_bold selection)
   \<and> (disagree (\<lambda>s. italic (props s)) (filterShapeByAction selection TextStyle) \<longrightarrow>
      \<not> TextStyleAction_italic selection)
   \<and> (disagree (\<lambda>s. decoration_start s = Some Arrow) (filterShapeByAction selection ArrowMode) \<longrightarrow>
      ''start'' \<notin> set (ArrowModeAction_value selection))
   \<and> (disagree (\<lambda>s. decoration_end s = Some Arrow) (filterShapeByAction selection ArrowMode) \<longrightarrow>
      ''end'' \<notin> set (ArrowModeAction_value selection))
   \<and> (filterShapeByAction selection Swatch = s0 # rest \<longrightarrow>
      SwatchAction_value selection
        = Inr (if noFill (props s0) then stroke (props s0) else fill (props s0)))"
proof -
  have stroke: "StrokeTypeAction_value selection = ''mixed''"
    if "disagree (\<lambda>s. strokeType (props s)) (filterShapeByAction selection StrokeType)"
    using disagree_every [OF that] by (simp add: StrokeTypeAction_value_def)
  have scale: "ScaleLevelAction_scaleLevel selection = Inr (Some [])"
    if "disagree scaleLevel (filterShapeByAction selection ScaleLevel)"
    using disagree_card [OF that] by (simp add: ScaleLevelAction_scaleLevel_def length_new_Set)
  have nofill: "\<not> NoFillAction_noFill selection"
    if "disagree (\<lambda>s. noFill (props s)) (filterShapeByAction selection NoFill)"
    using disagree_every_bool [OF that] by (simp add: NoFillAction_noFill_def)
  have auto_r: "\<not> AutoResizingAction_pressed selection"
    if "disagree (\<lambda>s. isAutoResizing (props s)) (filterShapeByAction selection AutoResizing)"
    using disagree_every_bool [OF that] by (simp add: AutoResizingAction_pressed_def)
  have view: "LogseqPortalViewModeAction_value selection = ''0''"
    if "disagree collapsed (filterShapeByAction selection LogseqPortalViewMode)"
    using disagree_every_bool [OF that] by (simp add: LogseqPortalViewModeAction_value_def)
  have bold: "\<not> TextStyleAction_bold selection"
    if "disagree (\<lambda>s. fontWeight (props s) > 500) (filterShapeByAction selection TextStyle)"
    using disagree_every_bool [OF that] by (simp add: TextStyleAction_bold_def)
  have ital: "\<not> TextStyleAction_italic selection"
    if "disagree (\<lambda>s. italic (props s)) (filterShapeByAction selection TextStyle)"
    using disagree_every_bool [OF that] by (simp add: TextStyleAction_italic_def)
  have arrow_s: "''start'' \<notin> set (ArrowModeAction_value selection)"
    if "disagree (\<lambda>s. decoration_start s = Some Arrow) (filterShapeByAction selection ArrowMode)"
    using disagree_every_bool [OF that] by (simp add: ArrowModeAction_value_def)
  have arrow_e: "''end'' \<notin> set (ArrowModeAction_value selection)"
    if "disagree (\<lambda>s. decoration_end s = Some Arrow) (filterShapeByAction selection ArrowMode)"
    using disagree_every_bool [OF that] by (simp add: ArrowModeAction_value_def)
  have swatch: "SwatchAction_value selection
        = Inr (if noFill (props s0) then stroke (props s0) else fill (props s0))"
    if "filterShapeByAction selection Swatch = s0 # rest"
    using that by (simp add: SwatchAction_value_def array_at_0)
  show ?thesis
    using stroke scale nofill auto_r view bold ital arrow_s arrow_e swatch by blast
qed


theorem display_values_witness:
  "disagree (\<lambda>s. strokeType (props s))
     (filterShapeByAction [exampleBox ''#ff0000'' ''line'', exampleBox ''#0000ff'' ''dashed''] StrokeType)
   \<and> StrokeTypeAction_value [exampleBox ''#ff0000'' ''line'', exampleBox ''#0000ff'' ''dashed'']
       = ''mixed''
   \<and> SwatchAction_value [exampleBox ''#ff0000'' ''line'', exampleBox ''#0000ff'' ''dashed'']
       = Inr ''#ff0000''"
proof -
  have f: "filterShapeByAction [exampleBox ''#ff0000'' ''line'', exampleBox ''#0000ff'' ''dashed''] T
        = (if T \<in> {Swatch, NoFill, StrokeType}
           then [exampleBox ''#ff0000'' ''line'', exampleBox ''#0000ff'' ''dashed''] else [])" for T
    by (simp add: filterShapeByAction_filter exampleBox_simps shapeMapping_simps)
  have d: "disagree (\<lambda>s. strokeType (props s))
     (filterShapeByAction [exampleBox ''#ff0000'' ''line'', exampleBox ''#0000ff'' ''dashed''] StrokeType)"
    by (auto simp: f disagree_def exampleBox_simps)
  show ?thesis
    using display_values [of "[exampleBox ''#ff0000'' ''line'', exampleBox ''#0000ff'' ''dashed'']"
            "exampleBox ''#ff0000'' ''line''" "[exampleBox ''#0000ff'' ''dashed'']"] d
    by (simp add: f exampleBox_simps)
qed

subsection \<open>Change handlers\<close>

lemma filterShapeByAction_supports:
  "filterShapeByAction selection T = filter (\<lambda>s. supports s T) selection"
  unfolding filterShapeByAction_def supports_def array_includes_def by (rule refl)

lemma forEach_concat: "forEach xs f calls = calls @ concat (map f xs)"
  unfolding forEach_def by (induction xs arbitrary: calls) simp_all

lemma forEach_single: "forEach xs (\<lambda>x. [g x]) [] = map g xs"
  by (simp add: forEach_concat)

lemma receiver_not_persist: "receiver c = Some s \<Longrightarrow> \<not> isPersist c"
  by (cases c) simp_all

lemma calls_frame:
  assumes calls: "calls = concat (map f (filter P sel)) @ [Persist e]"
    and f: "\<And>s. f s \<noteq> [] \<and> (\<forall>c \<in> set (f s). receiver c = Some s)"
  shows "filter isPersist calls = [last calls]
         \<and> (\<forall>s. (\<exists>c \<in> set calls. receiver c = Some s) \<longleftrightarrow> s \<in> set sel \<and> P s)"
proof -
  have np: "\<not> isPersist c" if "c \<in> set (concat (map f (filter P sel)))" for c
    using that f receiver_not_persist by fastforce
  then have "filter isPersist (concat (map f (filter P sel))) = []"
    by (simp add: filter_empty_conv)
  then have one: "filter isPersist calls = [last calls]"
    by (simp add: calls)
  have two: "(\<exists>c \<in> set calls. receiver c = Some s) \<longleftrightarrow> s \<in> set sel \<and> P s" for s
  proof
    assume "\<exists>c \<in> set calls. receiver c = Some s"
    then obtain c where c: "c \<in> set calls" and r: "receiver c = Some s" by blast
    from c r have "c \<in> set (concat (map f (filter P sel)))"
      by (auto simp: calls)
    then obtain s' where s': "s' \<in> set sel" "P s'" "c \<in> set (f s')" by auto
    with f have "receiver c = Some s'" by blast
    with r s' show "s \<in> set sel \<and> P s" by simp
  next
    assume s: "s \<in> set sel \<and> P s"
    from f obtain c where c: "c \<in> set (f s)"
      by (cases "f s") fastforce+
    with f have "receiver c = Some s" by blast
    moreover from c s have "c \<in> set calls" by (auto simp: calls)
    ultimately show "\<exists>c \<in> set calls. receiver c = Some s" by blast
  qed
  from one two show ?thesis by blast
qed

lemma concat_map_single: "concat (map (\<lambda>x. [g x]) xs) = map g xs"
  by (induction xs) simp_all


text \<open>
  Claim C9, as stated, fails for the AutoResizing handler. A selected text shape supports
  the AutoResizing action, yet the handler makes no \<^verbatim>\<open>update\<close> call on it: the new value
  is not applied, \<^verbatim>\<open>onResetBounds\<close> is called instead (lines 119 to 125).
\<close>

theorem autoResizing_text_not_updated:
  "filterShapeByAction [exampleShape ''text''] AutoResizing = [exampleShape ''text'']
   \<and> AutoResizingAction_onPressedChange [exampleShape ''text''] (1::int) True
       = [OnResetBounds (exampleShape ''text'') (Some 1), Persist False]"
  by (simp add: filterShapeByAction_filter AutoResizingAction_onPressedChange_def
        shapeMapping_simps forEach_concat)


text \<open>
  Claim C9, amended. Every change handler makes its calls on exactly the selected shapes
  whose type supports the action of the widget, in selection order, and then calls
  \<^verbatim>\<open>persist\<close> exactly once, last; a selected shape whose type does not support the action
  receives no call. The NoFill, StrokeType, ArrowMode, TextStyle and Swatch handlers apply
  the new value with \<^verbatim>\<open>update\<close> (TextStyle adds \<^verbatim>\<open>onResetBounds\<close>; Swatch flags its
  \<^verbatim>\<open>persist\<close>); the ScaleLevel and view mode handlers apply it with the setters
  \<^verbatim>\<open>setScaleLevel\<close> and \<^verbatim>\<open>setCollapsed\<close>. The AutoResizing handler applies the value
  with \<^verbatim>\<open>update\<close> only to the supporting shapes of type \<^verbatim>\<open>logseq-portal\<close> and calls
  \<^verbatim>\<open>onResetBounds\<close> on the others. The YoutubeLink handler passes the value to the first
  supporting shape and then calls \<^verbatim>\<open>persist\<close> once.
\<close>

theorem change_handlers_calls:
  fixes zoom :: 'z
  shows
  "NoFillAction_handleChange selection b
     = map (\<lambda>s. Update s (P_noFill b)) (filter (\<lambda>s. supports s NoFill) selection)
       @ [Persist False :: 'z Call]
   \<and> StrokeTypeAction_onValueChange selection v
     = map (\<lambda>s. Update s (P_strokeType v)) (filter (\<lambda>s. supports s StrokeType) selection)
       @ [Persist False :: 'z Call]
   \<and> ArrowModeAction_onValueChange selection vs
     = map (\<lambda>s. Update s (P_decorations (valueToDecorations vs)))
         (filter (\<lambda>s. supports s ArrowMode) selection)
       @ [Persist False :: 'z Call]
   \<and> SwatchAction_handler selection v
     = map (\<lambda>s. Update s (P_fill v)) (filter (\<lambda>s. supports s Swatch) selection)
       @ [Persist True :: 'z Call]
   \<and> ScaleLevelAction_onValueChange selection v
     = map (\<lambda>s. SetScaleLevel s v) (filter (\<lambda>s. supports s ScaleLevel) selection)
       @ [Persist False :: 'z Call]
   \<and> LogseqPortalViewModeAction_onValueChange selection v
     = map (\<lambda>s. SetCollapsed s (v = ''1''))
         (filter (\<lambda>s. supports s LogseqPortalViewMode) selection)
       @ [Persist False :: 'z Call]
   \<and> TextStyleAction_onBoldChange selection b
     = concat (map (\<lambda>s. [Update s (P_fontWeight (if b then 700 else 400)), OnResetBounds s None])
         (filter (\<lambda>s. supports s TextStyle) selection))
       @ [Persist False :: 'z Call]
   \<and> TextStyleAction_onItalicChange selection b
     = concat (map (\<lambda>s. [Update s (P_italic b), OnResetBounds s None])
         (filter (\<lambda>s. supports s TextStyle) selection))
       @ [Persist False :: 'z Call]
   \<and> AutoResizingAction_onPressedChange selection zoom b
     = map (\<lambda>s. if type (props s) = ''logseq-portal''
                  then Update s (P_isAutoResizing b) else OnResetBounds s (Some zoom))
         (filter (\<lambda>s. supports s AutoResizing) selection)
       @ [Persist False]
   \<and> (filter (\<lambda>s. supports s YoutubeLink) selection = s0 # rest \<longrightarrow>
        YoutubeLinkAction_handleChange selection v
          = Inr [OnYoutubeLinkChange s0 v, Persist False :: 'z Call])
   \<and> (\<forall>(T, calls) \<in>
          {(NoFill, NoFillAction_handleChange selection b),
           (StrokeType, StrokeTypeAction_onValueChange selection v),
           (ArrowMode, ArrowModeAction_onValueChange selection vs),
           (Swatch, SwatchAction_handler selection v),
           (ScaleLevel, ScaleLevelAction_onValueChange selection v),
           (LogseqPortalViewMode, LogseqPortalViewModeAction_onValueChange selection v),
           (TextStyle, TextStyleAction_onBoldChange selection b),
           (TextStyle, TextStyleAction_onItalicChange selection b),
           (AutoResizing, AutoResizingAction_onPressedChange selection zoom b)}.
        filter isPersist calls = [last calls]
        \<and> (\<forall>s. (\<exists>c \<in> set calls. receiver c = Some s)
                 \<longleftrightarrow> s \<in> set selection \<and> supports s T))"
proof -
  note fs = filterShapeByAction_supports
  have nofill: "NoFillAction_handleChange selection b
     = map (\<lambda>s. Update s (P_noFill b)) (filter (\<lambda>s. supports s NoFill) selection)
       @ [Persist False :: 'z Call]"
    by (simp add: NoFillAction_handleChange_def fs forEach_single)
  have stroke: "StrokeTypeAction_onValueChange selection v
     = map (\<lambda>s. Update s (P_strokeType v)) (filter (\<lambda>s. supports s StrokeType) selection)
       @ [Persist False :: 'z Call]"
    by (simp add: StrokeTypeAction_onValueChange_def fs forEach_single)
  have arrow: "ArrowModeAction_onValueChange selection vs
     = map (\<lambda>s. Update s (P_decorations (valueToDecorations vs)))
         (filter (\<lambda>s. supports s ArrowMode) selection)
       @ [Persist False :: 'z Call]"
    by (simp add: ArrowModeAction_onValueChange_def fs forEach_single)
  have swatch: "SwatchAction_handler selection v
     = map (\<lambda>s. Update s (P_fill v)) (filter (\<lambda>s. supports s Swatch) selection)
       @ [Persist True :: 'z Call]"
    by (simp add: SwatchAction_handler_def fs forEach_single)
  have scale: "ScaleLevelAction_onValueChange selection v
     = map (\<lambda>s. SetScaleLevel s v) (filter (\<lambda>s. supports s ScaleLevel) selection)
       @ [Persist False :: 'z Call]"
    by (simp add: ScaleLevelAction_onValueChange_def fs forEach_single)
  have view: "LogseqPortalViewModeAction_onValueChange selection v
     = map (\<lambda>s. SetCollapsed s (v = ''1''))
         (filter (\<lambda>s. supports s LogseqPortalViewMode) selection)
       @ [Persist False :: 'z Call]"
    by (simp add: LogseqPortalViewModeAction_onValueChange_def fs forEach_single)
  have bold: "TextStyleAction_onBoldChange selection b
     = concat (map (\<lambda>s. [Update s (P_fontWeight (if b then 700 else 400)), OnResetBounds s None])
         (filter (\<lambda>s. supports s TextStyle) selection))
       @ [Persist False :: 'z Call]"
    by (simp add: TextStyleAction_onBoldChange_def fs forEach_concat)
  have ital: "TextStyleAction_onItalicChange selection b
     = concat (map (\<lambda>s. [Update s (P_italic b), OnResetBounds s None])
         (filter (\<lambda>s. supports s TextStyle) selection))
       @ [Persist False :: 'z Call]"
    by (simp add: TextStyleAction_onItalicChange_def fs forEach_concat)
  have autor: "AutoResizingAction_onPressedChange selection zoom b
     = map (\<lambda>s. if type (props s) = ''logseq-portal''
                  then Update s (P_isAutoResizing b) else OnResetBounds s (Some zoom))
         (filter (\<lambda>s. supports s AutoResizing) selection)
       @ [Persist False]"
  proof -
    have "(\<lambda>s. if type (props s) = ''logseq-portal''
                  then [Update s (P_isAutoResizing b)] else [OnResetBounds s (Some zoom)])
        = (\<lambda>s. [if type (props s) = ''logseq-portal''
                  then Update s (P_isAutoResizing b) else OnResetBounds s (Some zoom)])"
      by (rule ext) simp
    then show ?thesis
      by (simp add: AutoResizingAction_onPressedChange_def fs forEach_single)
  qed
  have yt: "YoutubeLinkAction_handleChange selection v
          = Inr [OnYoutubeLinkChange s0 v, Persist False :: 'z Call]"
    if "filter (\<lambda>s. supports s YoutubeLink) selection = s0 # rest"
    using that by (simp add: YoutubeLinkAction_handleChange_def fs array_at_0)
  have frame: "filter isPersist calls = [last calls]
        \<and> (\<forall>s. (\<exists>c \<in> set calls. receiver c = Some s)
                 \<longleftrightarrow> s \<in> set selection \<and> supports s T)"
    if "(T, calls) \<in>
          {(NoFill, NoFillAction_handleChange selection b),
           (StrokeType, StrokeTypeAction_onValueChange selection v),
           (ArrowMode, ArrowModeAction_onValueChange selection vs),
           (Swatch, SwatchAction_handler selection v),
           (ScaleLevel, ScaleLevelAction_onValueChange selection v),
           (LogseqPortalViewMode, LogseqPortalViewModeAction_onValueChange selection v),
           (TextStyle, TextStyleAction_onBoldChange selection b),
           (TextStyle, TextStyleAction_onItalicChange selection b),
           (AutoResizing, AutoResizingAction_onPressedChange selection zoom b)}"
    for T and calls :: "'z Call list"
  proof -
    from that consider
        "T = NoFill" "calls = NoFillAction_handleChange selection b"
      | "T = StrokeType" "calls = StrokeTypeAction_onValueChange selection v"
      | "T = ArrowMode" "calls = ArrowModeAction_onValueChange selection vs"
      | "T = Swatch" "calls = SwatchAction_handler selection v"
      | "T = ScaleLevel" "calls = ScaleLevelAction_onValueChange selection v"
      | "T = LogseqPortalViewMode" "calls = LogseqPortalViewModeAction_onValueChange selection v"
      | "T = TextStyle" "calls = TextStyleAction_onBoldChange selection b"
      | "T = TextStyle" "calls = TextStyleAction_onItalicChange selection b"
      | "T = AutoResizing" "calls = AutoResizingAction_onPressedChange selection zoom b"
      by auto
    then show ?thesis
    proof cases
      case 1
      have "calls = concat (map (\<lambda>s. [Update s (P_noFill b)])
              (filter (\<lambda>s. supports s NoFill) selection)) @ [Persist False]"
        by (simp add: 1(2) nofill concat_map_single)
      then show ?thesis
        unfolding 1(1) by (rule calls_frame) simp
    next
      case 2
      have "calls = concat (map (\<lambda>s. [Update s (P_strokeType v)])
              (filter (\<lambda>s. supports s StrokeType) selection)) @ [Persist False]"
        by (simp add: 2(2) stroke concat_map_single)
      then show ?thesis
        unfolding 2(1) by (rule calls_frame) simp
    next
      case 3
      have "calls = concat (map (\<lambda>s. [Update s (P_decorations (valueToDecorations vs))])
              (filter (\<lambda>s. supports s ArrowMode) selection)) @ [Persist False]"
        by (simp add: 3(2) arrow concat_map_single)
      then show ?thesis
        unfolding 3(1) by (rule calls_frame) simp
    next
      case 4
      have "calls = concat (map (\<lambda>s. [Update s (P_fill v)])
              (filter (\<lambda>s. supports s Swatch) selection)) @ [Persist True]"
        by (simp add: 4(2) swatch concat_map_single)
      then show ?thesis
        unfolding 4(1) by (rule calls_frame) simp
    next
      case 5
      have "calls = concat (map (\<lambda>s. [SetScaleLevel s v])
              (filter (\<lambda>s. supports s ScaleLevel) selection)) @ [Persist False]"
        by (simp add: 5(2) scale concat_map_single)
      then show ?thesis
        unfolding 5(1) by (rule calls_frame) simp
    next
      case 6
      have "calls = concat (map (\<lambda>s. [SetCollapsed s (v = ''1'')])
              (filter (\<lambda>s. supports s LogseqPortalViewMode) selection)) @ [Persist False]"
        by (simp add: 6(2) view concat_map_single)
      then show ?thesis
        unfolding 6(1) by (rule calls_frame) simp
    next
      case 7
      have "calls = concat (map (\<lambda>s. [Update s (P_fontWeight (if b then 700 else 400)), OnResetBounds s None])
              (filter (\<lambda>s. supports s TextStyle) selection)) @ [Persist False]"
        by (simp add: 7(2) bold concat_map_single)
      then show ?thesis
        unfolding 7(1) by (rule calls_frame) simp
    next
      case 8
      have "calls = concat (map (\<lambda>s. [Update s (P_italic b), OnResetBounds s None])
              (filter (\<lambda>s. supports s TextStyle) selection)) @ [Persist False]"
        by (simp add: 8(2) ital concat_map_single)
      then show ?thesis
        unfolding 8(1) by (rule calls_frame) simp
    next
      case 9
      have "calls = concat (map (\<lambda>s. [if type (props s) = ''logseq-portal'' then Update s (P_isAutoResizing b) else OnResetBounds s (Some zoom)])
              (filter (\<lambda>s. supports s AutoResizing) selection)) @ [Persist False]"
        by (simp add: 9(2) autor concat_map_single)
      then show ?thesis
        unfolding 9(1) by (rule calls_frame) simp
    qed
  qed
  have frame_all: "\<forall>(T, calls) \<in>
          {(NoFill, NoFillAction_handleChange selection b),
           (StrokeType, StrokeTypeAction_onValueChange selection v),
           (ArrowMode, ArrowModeAction_onValueChange selection vs),
           (Swatch, SwatchAction_handler selection v),
           (ScaleLevel, ScaleLevelAction_onValueChange selection v),
           (LogseqPortalViewMode, LogseqPortalViewModeAction_onValueChange selection v),
           (TextStyle, TextStyleAction_onBoldChange selection b),
           (TextStyle, TextStyleAction_onItalicChange selection b),
           (AutoResizing, AutoResizingAction_onPressedChange selection zoom b)}.
        filter isPersist calls = [last calls]
        \<and> (\<forall>s. (\<exists>c \<in> set calls. receiver c = Some s)
                 \<longleftrightarrow> s \<in> set selection \<and> supports s T)"
    (is "Ball ?H _")
  proof (rule ballI)
    fix x :: "ContextBarActionType \<times> 'z Call list"
    assume x: "x \<in> ?H"
    obtain T calls where tc: "x = (T, calls)" by (cases x)
    from x have m: "(T, calls) \<in> ?H" unfolding tc .
    show "case x of (T, calls) \<Rightarrow>
        filter isPersist calls = [last calls]
        \<and> (\<forall>s. (\<exists>c \<in> set calls. receiver c = Some s)
                 \<longleftrightarrow> s \<in> set selection \<and> supports s T)"
      unfolding tc prod.case by (rule frame [OF m])
  qed
  from yt have yt': "filter (\<lambda>s. supports s YoutubeLink) selection = s0 # rest \<longrightarrow>
        YoutubeLinkAction_handleChange selection v
          = Inr [OnYoutubeLinkChange s0 v, Persist False :: 'z Call]" by (rule impI)
  from nofill stroke arrow swatch scale view bold ital autor yt' frame_all
  show ?thesis by (intro conjI)
qed


theorem change_handlers_calls_witness:
  "filter (\<lambda>s. supports s NoFill) [exampleShape ''box'', exampleShape ''line'']
     = [exampleShape ''box'']
   \<and> NoFillAction_handleChange [exampleShape ''box'', exampleShape ''line''] True
       = [Update (exampleShape ''box'') (P_noFill True), Persist False :: int Call]"
proof -
  have f: "filter (\<lambda>s. supports s NoFill) [exampleShape ''box'', exampleShape ''line'']
     = [exampleShape ''box'']"
    by (simp add: supports_def shapeMapping_simps)
  have "NoFillAction_handleChange [exampleShape ''box'', exampleShape ''line''] True
       = map (\<lambda>s. Update s (P_noFill True))
           (filter (\<lambda>s. supports s NoFill) [exampleShape ''box'', exampleShape ''line''])
         @ [Persist False :: int Call]"
    using change_handlers_calls
            [where selection = "[exampleShape ''box'', exampleShape ''line'']"
               and b = True and zoom = "1 :: int" and v = "[]" and vs = "[]"
               and ?s0.0 = "exampleShape ''box''" and rest = "[]"]
    by (rule conjunct1)
  then show ?thesis
    unfolding f using f by simp
qed

subsection \<open>The debounced colour handler\<close>

lemma run_events_pending:
  assumes "timeoutId st = Some (t + debounce_ms)" and "latestValue st = v"
  shows "trace (run_events selection es st)
           = trace st @ concat (map (SwatchAction_handler selection) (burst_ends ((t, v) # es)))
         \<and> timeoutId (run_events selection es st) = None"
  using assms
proof (induction es arbitrary: st t v)
  case Nil
  then show ?case by (simp add: timer_fires_def)
next
  case (Cons e es)
  obtain t' v' where e: "e = (t', v')" by (cases e)
  let ?st' = "handleChange selection t' v' st"
  have p: "timeoutId ?st' = Some (t' + debounce_ms)" and l: "latestValue ?st' = v'"
    by (simp_all add: handleChange_def)
  have c: "trace ?st' = trace st
             @ (if t + debounce_ms \<le> t' then SwatchAction_handler selection v else [])"
    using Cons.prems by (simp add: handleChange_def time_passes_def timer_fires_def)
  from Cons.IH [OF p l] c show ?case
    by (simp add: e)
qed

lemma run_events_init:
  "trace (run_events selection es (debounced_init :: 'z Debounced))
     = concat (map (SwatchAction_handler selection) (burst_ends es))
   \<and> timeoutId (run_events selection es (debounced_init :: 'z Debounced)) = None"
proof (cases es)
  case Nil
  then show ?thesis by (simp add: debounced_init_def)
next
  case (Cons e es')
  obtain t v where e: "e = (t, v)" by (cases e)
  let ?st = "handleChange selection t v (debounced_init :: 'z Debounced)"
  have "timeoutId ?st = Some (t + debounce_ms)" "latestValue ?st = v"
    by (simp_all add: handleChange_def)
  from run_events_pending [OF this, of selection es']
  have "trace (run_events selection es' ?st)
           = trace ?st @ concat (map (SwatchAction_handler selection) (burst_ends ((t, v) # es')))
         \<and> timeoutId (run_events selection es' ?st) = None" .
  moreover have "trace ?st = []"
    by (simp add: handleChange_def time_passes_def debounced_init_def)
  ultimately show ?thesis
    by (simp add: Cons e)
qed

lemma burst_ends_burst: "burst es \<Longrightarrow> burst_ends es = [snd (last es)]"
  by (induction es rule: burst.induct) simp_all


lemma SwatchAction_handler_calls:
  "SwatchAction_handler selection v
     = map (\<lambda>s. Update s (P_fill v)) (filter (\<lambda>s. supports s Swatch) selection)
       @ [Persist True]"
  by (simp add: SwatchAction_handler_def filterShapeByAction_supports forEach_single)

lemma no_persist_in_updates: "filter isPersist (map (\<lambda>s. Update s p) xs) = []"
  by (induction xs) simp_all

text \<open>
  Claim C6. For every burst of colour input events, each less than the window of 100 ms
  after the one before, the pending update is replaced, not queued: once the burst is
  over, the only calls made are one \<^verbatim>\<open>update\<close> of the fill, with the value of the last
  event, on each shape supporting the Swatch action, followed by exactly one
  \<^verbatim>\<open>persist\<close>, which carries the ephemeral flag. For any sequence of events, the handler
  runs once for each event that ends a burst, with that event's value, and no timer is
  left pending.
\<close>

theorem debounced_swatch_burst:
  "(burst events \<longrightarrow>
      trace (run_events selection events debounced_init)
        = map (\<lambda>s. Update s (P_fill (snd (last events))))
            (filter (\<lambda>s. supports s Swatch) selection)
          @ [Persist True :: 'z Call]
      \<and> filter isPersist (trace (run_events selection events (debounced_init :: 'z Debounced)))
          = [Persist True])
   \<and> trace (run_events selection events (debounced_init :: 'z Debounced))
       = concat (map (SwatchAction_handler selection) (burst_ends events))
   \<and> timeoutId (run_events selection events (debounced_init :: 'z Debounced)) = None"
proof -
  note r = run_events_init [of selection events, where 'z = 'z]
  have one: "trace (run_events selection events debounced_init)
        = map (\<lambda>s. Update s (P_fill (snd (last events))))
            (filter (\<lambda>s. supports s Swatch) selection)
          @ [Persist True :: 'z Call]"
    if "burst events"
    using r burst_ends_burst [OF that] by (simp add: SwatchAction_handler_calls)
  have two: "filter isPersist (trace (run_events selection events (debounced_init :: 'z Debounced)))
          = [Persist True]"
    if "burst events"
    by (simp add: one [OF that] no_persist_in_updates)
  from one two r show ?thesis by blast
qed

theorem debounced_swatch_burst_witness:
  "burst [(0, ''#111111''), (50, ''#222222''), (149, ''#333333'')]
   \<and> trace (run_events [exampleShape ''box'', exampleShape ''html'']
              [(0, ''#111111''), (50, ''#222222''), (149, ''#333333'')]
              (debounced_init :: int Debounced))
       = [Update (exampleShape ''box'') (P_fill ''#333333''), Persist True]"
proof -
  have b: "burst [(0, ''#111111''), (50, ''#222222''), (149, ''#333333'')]"
    by (simp add: debounce_ms_def)
  have f: "filter (\<lambda>s. supports s Swatch) [exampleShape ''box'', exampleShape ''html'']
     = [exampleShape ''box'']"
    by (simp add: supports_def shapeMapping_simps)
  show ?thesis
    using debounced_swatch_burst
            [where events = "[(0, ''#111111''), (50, ''#222222''), (149, ''#333333'')]"
               and selection = "[exampleShape ''box'', exampleShape ''html'']" and 'z = int] b
    unfolding f by simp
qed

end
